theory Spec2Isabelle
  imports Main
begin

section \<open>Startup: environment mode and the GitHub source action\<close>










text \<open>
  The trigger configuration an action carries: how source events are delivered and how
  the access secret is resolved.
\<close>

datatype trigger_mode = Poll | Webhook






section \<open>The checkout seen by the Docker build project\<close>

text \<open>
  A revision is a tree: a map from paths to file contents. The checkout is the
  first-parent chain of revisions with the current one (\<^verbatim>\<open>HEAD\<close>, which is also the
  working tree of a fresh checkout) first; \<^verbatim>\<open>HEAD~n\<close> is element \<open>n\<close>. A checkout
  with no git metadata is the empty list, a shallow one has a single element.
\<close>

type_synonym tree = "string \<rightharpoonup> string"

type_synonym history = "tree list"

text \<open>
  Exit status of \<^verbatim>\<open>git rev-parse --quiet --verify HEAD~n\<close>: 0 when the revision
  resolves, 1 otherwise.
\<close>

definition git_rev_parse_verify :: "history \<Rightarrow> nat \<Rightarrow> nat" where
  "git_rev_parse_verify h n = (if n < length h then 0 else 1)"

text \<open>
  Exit status of \<^verbatim>\<open>git diff --quiet HEAD~n -- paths\<close>: 128 when the revision does not
  resolve, otherwise 1 when one of the paths differs between the working tree and that
  revision (created, deleted or modified), and 0 when none does.
\<close>

definition git_diff_quiet :: "history \<Rightarrow> nat \<Rightarrow> string list \<Rightarrow> nat" where
  "git_diff_quiet h n paths =
     (if n < length h
      then (if list_all (\<lambda>p. (h ! 0) p = (h ! n) p) paths then 0 else 1)
      else 128)"

section \<open>The change check of the pre-build phase\<close>

text \<open>
  The state of the build container's shell: the exported variable
  \<^verbatim>\<open>SKIP_DOCKER_BUILD\<close> (the build specification has version 0.2, so exports persist
  across commands and phases) and the external programs spawned so far.
  \<^verbatim>\<open>echo\<close>, \<^verbatim>\<open>export\<close> and \<^verbatim>\<open>[\<close> are shell builtins and spawn nothing.
\<close>

record shell =
  SKIP_DOCKER_BUILD :: "string option"
  spawned :: "string list"

definition spawn :: "string \<Rightarrow> shell \<Rightarrow> shell" where
  "spawn prog s = s\<lparr>spawned := spawned s @ [prog]\<rparr>"

definition export_SKIP_DOCKER_BUILD :: "string \<Rightarrow> shell \<Rightarrow> shell" where
  "export_SKIP_DOCKER_BUILD v s = s\<lparr>SKIP_DOCKER_BUILD := Some v\<rparr>"

text \<open>
  The first pre-build command of the stack with the invalidation Lambda:
  \<^verbatim>\<open>if git rev-parse --quiet --verify HEAD~1 >/dev/null 2>&1; then
       if git diff --quiet HEAD~1 -- package.json pnpm-lock.yaml;
       then export SKIP_DOCKER_BUILD=true; else export SKIP_DOCKER_BUILD=false; fi;
     else export SKIP_DOCKER_BUILD=false; fi\<close>
  The result is the new shell state and the exit status of the command, which is that of
  the last command run, an \<^verbatim>\<open>export\<close>.
\<close>

definition skip_check :: "history \<Rightarrow> shell \<Rightarrow> shell \<times> nat" where
  "skip_check h s =
     (let s1 = spawn ''git rev-parse'' s in
      if git_rev_parse_verify h 1 = 0
      then (let s2 = spawn ''git diff'' s1 in
            if git_diff_quiet h 1 [''package.json'', ''pnpm-lock.yaml''] = 0
            then (export_SKIP_DOCKER_BUILD ''true'' s2, 0)
            else (export_SKIP_DOCKER_BUILD ''false'' s2, 0))
      else (export_SKIP_DOCKER_BUILD ''false'' s1, 0))"

text \<open>
  The same command in the LocalStack-aware stack:
  \<^verbatim>\<open>if git diff --quiet HEAD~1 -- package.json;
     then export SKIP_DOCKER_BUILD=true; else export SKIP_DOCKER_BUILD=false; fi\<close>
\<close>

definition skip_check_localstack :: "history \<Rightarrow> shell \<Rightarrow> shell \<times> nat" where
  "skip_check_localstack h s =
     (let s1 = spawn ''git diff'' s in
      if git_diff_quiet h 1 [''package.json''] = 0
      then (export_SKIP_DOCKER_BUILD ''true'' s1, 0)
      else (export_SKIP_DOCKER_BUILD ''false'' s1, 0))"

text \<open>The test of the later phases: \<^verbatim>\<open>[ "$SKIP_DOCKER_BUILD" = "true" ]\<close>.\<close>

definition skip_requested :: "shell \<Rightarrow> bool" where
  "skip_requested s = (SKIP_DOCKER_BUILD s = Some ''true'')"

definition fresh_shell :: shell where
  "fresh_shell = \<lparr> SKIP_DOCKER_BUILD = None, spawned = [] \<rparr>"

text \<open>The change decision of a run: the skip flag the pre-build phase leaves behind.\<close>

definition decide :: "history \<Rightarrow> bool" where
  "decide h = skip_requested (fst (skip_check h fresh_shell))"

definition decide_localstack :: "history \<Rightarrow> bool" where
  "decide_localstack h = skip_requested (fst (skip_check_localstack h fresh_shell))"

section \<open>The build projects\<close>

text \<open>
  What a build container meets outside the shell: the checkout, and the exit status of
  every external program other than git, by name.
\<close>

record world =
  checkout :: history
  exit_status :: "string \<Rightarrow> nat"

type_synonym command = "world \<Rightarrow> shell \<Rightarrow> shell \<times> nat"

text \<open>
  A build specification: the commands of its phases. A phase runs its commands in order
  and stops at the first one that exits with a non-zero status.
\<close>

record buildspec =
  install :: "command list"
  pre_build :: "command list"
  build :: "command list"
  post_build :: "command list"

fun run_commands :: "world \<Rightarrow> command list \<Rightarrow> shell \<Rightarrow> shell \<times> nat" where
  "run_commands w [] s = (s, 0)"
| "run_commands w (c # cs) s =
     (case c w s of (s', e) \<Rightarrow> if e = 0 then run_commands w cs s' else (s', e))"

text \<open>
  The phase transitions of the build service: a failed \<^verbatim>\<open>install\<close> or
  \<^verbatim>\<open>pre_build\<close> phase ends the build; \<^verbatim>\<open>post_build\<close> runs after \<^verbatim>\<open>build\<close>
  whether or not \<^verbatim>\<open>build\<close> succeeded. The build's status is that of the first phase
  that failed, 0 when none did.
\<close>

definition run_buildspec :: "world \<Rightarrow> buildspec \<Rightarrow> shell \<Rightarrow> shell \<times> nat" where
  "run_buildspec w b s =
     (case run_commands w (install b) s of (s0, e0) \<Rightarrow>
      if e0 \<noteq> 0 then (s0, e0) else
      (case run_commands w (pre_build b) s0 of (s1, e1) \<Rightarrow>
       if e1 \<noteq> 0 then (s1, e1) else
       (case run_commands w (build b) s1 of (s2, e2) \<Rightarrow>
        (case run_commands w (post_build b) s2 of (s3, e3) \<Rightarrow>
         (s3, if e2 \<noteq> 0 then e2 else e3)))))"

text \<open>\<^verbatim>\<open>echo ...\<close>\<close>

definition echo :: command where
  "echo w s = (s, 0)"

text \<open>A single external program: its exit status is the command's.\<close>

definition external :: "string \<Rightarrow> command" where
  "external prog w s = (spawn prog s, exit_status w prog)"

text \<open>
  \<^verbatim>\<open>aws ecr get-login-password --region $AWS_DEFAULT_REGION | docker login ...\<close>:
  both sides of the pipe are started; the status is that of the last one.
\<close>

definition ecr_login :: command where
  "ecr_login w s =
     (spawn ''docker login'' (spawn ''aws ecr get-login-password'' s),
      exit_status w ''docker login'')"

text \<open>\<^verbatim>\<open>docker pull <repositoryUri>:latest || true\<close>\<close>

definition docker_pull_or_true :: command where
  "docker_pull_or_true w s = (spawn ''docker pull'' s, 0)"

text \<open>
  \<^verbatim>\<open>if [ "$SKIP_DOCKER_BUILD" = "true" ]; then echo "Skipping Docker build ...";
     else echo "Building Docker image..."; docker build ...; docker tag ...; fi\<close>
  The commands of the else branch are separated by \<^verbatim>\<open>;\<close>: each runs whatever the
  previous one returned, and the status is that of the last.
\<close>

definition docker_build_unless_skipped :: command where
  "docker_build_unless_skipped w s =
     (if skip_requested s then (s, 0)
      else (spawn ''docker tag'' (spawn ''docker build'' s), exit_status w ''docker tag''))"

text \<open>
  \<^verbatim>\<open>if [ "$SKIP_DOCKER_BUILD" = "true" ]; then echo "Skipping Docker push ...";
     else echo "Pushing Docker image..."; docker push ...; fi\<close>
\<close>

definition docker_push_unless_skipped :: command where
  "docker_push_unless_skipped w s =
     (if skip_requested s then (s, 0)
      else (spawn ''docker push'' s, exit_status w ''docker push''))"

text \<open>The Docker build project of the stack with the invalidation Lambda.\<close>

definition dockerBuildProject :: buildspec where
  "dockerBuildProject =
     \<lparr> install = [],
       pre_build = [(\<lambda>w. skip_check (checkout w)), echo, echo, ecr_login, docker_pull_or_true],
       build = [docker_build_unless_skipped],
       post_build = [docker_push_unless_skipped] \<rparr>"

text \<open>The Vite build project of the same stack.\<close>

definition viteBuildProject :: buildspec where
  "viteBuildProject =
     \<lparr> install = [echo],
       pre_build = [],
       build = [external ''pnpm install --frozen-lockfile'', external ''pnpm run build''],
       post_build = [] \<rparr>"

section \<open>The artifact store\<close>

text \<open>
  Modelled from the spec: the error taxonomy of the orchestrator. The repository declares
  its pipeline to a hosted pipeline service and has no error type of its own.
\<close>

datatype error = MissingArtifact | DuplicateArtifact | NotFound | StageFailed | TimedOut

text \<open>
  Modelled from the spec: an artifact, a named write-once payload with its producing stage
  and creation time. The repository only declares artifacts (\<^verbatim>\<open>sourceOutput\<close>,
  \<^verbatim>\<open>ViteBuildOutput\<close>); their storage is left to the pipeline service.
\<close>

record Artifact =
  artifactName :: string
  producingStage :: string
  payload :: string
  createdAt :: nat

type_synonym run_id = nat

text \<open>
  Modelled from the spec: the Artifact Store. Every run owns a namespace keyed by its
  run identifier, so the store maps a run and a name to the artifact written under them.
\<close>

type_synonym artifact_store = "run_id \<times> string \<rightharpoonup> Artifact"

text \<open>
  Modelled from the spec: \<^verbatim>\<open>put(name, producingStage, payload)\<close>, scoped to a run.
  It fails with \<open>DuplicateArtifact\<close> when the name was already written in that run and
  returns the store as it was; otherwise it returns the store with the new artifact.
\<close>

definition put ::
  "run_id \<Rightarrow> string \<Rightarrow> string \<Rightarrow> string \<Rightarrow> nat \<Rightarrow> artifact_store \<Rightarrow> error option \<times> artifact_store" where
  "put rid n producer bytes now st =
     (case st (rid, n) of
        Some _ \<Rightarrow> (Some DuplicateArtifact, st)
      | None \<Rightarrow> (None, st((rid, n) \<mapsto>
          \<lparr> artifactName = n, producingStage = producer, payload = bytes, createdAt = now \<rparr>)))"

text \<open>
  Modelled from the spec: \<^verbatim>\<open>get(name) -> payload | NotFound\<close>, scoped to a run.
\<close>

definition get :: "run_id \<Rightarrow> string \<Rightarrow> artifact_store \<Rightarrow> error + string" where
  "get rid n st = (case st (rid, n) of None \<Rightarrow> Inl NotFound | Some a \<Rightarrow> Inr (payload a))"

text \<open>
  Modelled from the spec: the store after a log of writes, each a run, a name, a
  producing stage, a payload and a time; a write that fails leaves the store as it was.
\<close>

fun put_all :: "(run_id \<times> string \<times> string \<times> string \<times> nat) list \<Rightarrow> artifact_store \<Rightarrow> artifact_store" where
  "put_all [] st = st"
| "put_all ((rid, n, producer, bytes, now) # ops) st =
     put_all ops (snd (put rid n producer bytes now st))"

section \<open>The pipeline data model\<close>

text \<open>
  Modelled from the spec: the status of a stage result and the overall status of a run.
  The repository has no run-time representation of either.
\<close>

datatype stage_status = Skipped | Succeeded | Failed

datatype run_status = Pending | Running | Run_Succeeded | Run_Failed

text \<open>
  Modelled from the spec: a stage, immutable configuration with a name, an optional
  input and output artifact name, the program to execute (here its exit status in a given
  world) and an optional skip predicate over the revision data of the trigger. The ordinal
  position of a stage is its position in the pipeline's list.
\<close>

record Stage =
  stageName :: string
  inputArtifact :: "string option"
  outputArtifact :: "string option"
  program :: "world \<Rightarrow> nat"
  skip_predicate :: "(history \<Rightarrow> bool) option"

text \<open>
  Modelled from the spec: a stage result. The exit code is absent when no program was
  invoked; \<open>failure\<close> records the runtime error of a failed stage.
\<close>

record StageResult =
  stage :: string
  status :: stage_status
  exitCode :: "nat option"
  failure :: "error option"
  startTime :: nat
  endTime :: nat

text \<open>
  Modelled from the spec: the trigger event, a revision identifier, a ref and a delivery
  mode, together with the revision data the change check reads.
\<close>

record TriggerEvent =
  revision :: string
  ref :: string
  delivery :: trigger_mode
  revisions :: history

text \<open>
  Modelled from the spec: what a run meets outside the engine: the exit status of every
  external program by name, the time each stage's program takes and the bytes found at
  the declared output location of each stage.
\<close>

record environment =
  programs :: "string \<Rightarrow> nat"
  elapsed :: "string \<Rightarrow> nat"
  produced :: "string \<Rightarrow> string"

text \<open>
  Modelled from the spec: a pipeline run (identifier, results in the order recorded,
  overall status) with the engine's bookkeeping: the stages not started yet, the artifact
  store, a logical clock, the stages whose program was invoked and the number of requests
  sent to the deploy/invalidate collaborator.
\<close>

record engine =
  runId :: run_id
  results :: "StageResult list"
  overall :: run_status
  todo :: "Stage list"
  store :: artifact_store
  clock :: nat
  invoked :: "string list"
  invalidations :: nat

section \<open>The stage executor\<close>

text \<open>
  Modelled from the spec: the per-run value of a stage's skip predicate, computed from
  the trigger's revision data; a stage without a predicate is never skipped.
\<close>

definition skip_holds :: "TriggerEvent \<Rightarrow> Stage \<Rightarrow> bool" where
  "skip_holds t st = (case skip_predicate st of None \<Rightarrow> False | Some p \<Rightarrow> p (revisions t))"

text \<open>
  Modelled from the spec: resolving the declared input artifact of a stage from the
  store of the run; an absent artifact is \<open>MissingArtifact\<close>.
\<close>

definition resolve_input :: "Stage \<Rightarrow> engine \<Rightarrow> error + string option" where
  "resolve_input st e =
     (case inputArtifact st of
        None \<Rightarrow> Inr None
      | Some n \<Rightarrow> (case get (runId e) n (store e) of
                    Inl _ \<Rightarrow> Inl MissingArtifact
                  | Inr bytes \<Rightarrow> Inr (Some bytes)))"

text \<open>
  Modelled from the spec: \<^verbatim>\<open>execute(stage, run) -> StageResult\<close>. A stage whose skip
  predicate holds is recorded as \<open>Skipped\<close> and nothing else happens; the predicate is
  tested first, so that a skipped stage reads no artifact. Otherwise the
  input is resolved, the program is invoked and its exit code recorded; on exit code 0 a
  declared output is written to the store. A missing input, a non-zero exit code and a
  duplicate output each give a \<open>Failed\<close> result.
\<close>

definition execute :: "environment \<Rightarrow> TriggerEvent \<Rightarrow> Stage \<Rightarrow> engine \<Rightarrow> StageResult \<times> engine" where
  "execute env t st e =
     (if skip_holds t st
      then (\<lparr> stage = stageName st, status = Skipped, exitCode = None, failure = None,
               startTime = clock e, endTime = clock e \<rparr>, e)
      else
       (case resolve_input st e of
          Inl err \<Rightarrow>
            (\<lparr> stage = stageName st, status = Failed, exitCode = None, failure = Some err,
               startTime = clock e, endTime = clock e \<rparr>, e)
        | Inr _ \<Rightarrow>
           (let code = program st \<lparr> checkout = revisions t, exit_status = programs env \<rparr>;
                fin = clock e + elapsed env (stageName st);
                e1 = e\<lparr> invoked := invoked e @ [stageName st], clock := fin \<rparr>
            in if code \<noteq> 0
               then (\<lparr> stage = stageName st, status = Failed, exitCode = Some code,
                        failure = Some StageFailed, startTime = clock e, endTime = fin \<rparr>, e1)
               else
                (case outputArtifact st of
                   None \<Rightarrow>
                     (\<lparr> stage = stageName st, status = Succeeded, exitCode = Some code,
                        failure = None, startTime = clock e, endTime = fin \<rparr>, e1)
                 | Some n \<Rightarrow>
                    (case put (runId e) n (stageName st) (produced env (stageName st)) fin
                            (store e) of
                       (Some err, _) \<Rightarrow>
                         (\<lparr> stage = stageName st, status = Failed, exitCode = Some code,
                            failure = Some err, startTime = clock e, endTime = fin \<rparr>, e1)
                     | (None, store') \<Rightarrow>
                         (\<lparr> stage = stageName st, status = Succeeded, exitCode = Some code,
                            failure = None, startTime = clock e, endTime = fin \<rparr>,
                          e1\<lparr> store := store' \<rparr>))))))"

section \<open>The pipeline engine\<close>

text \<open>
  Modelled from the spec: the transition to \<open>Succeeded\<close>, which signals the
  deploy/invalidate collaborator.
\<close>

definition finish :: "engine \<Rightarrow> engine" where
  "finish e = e\<lparr> overall := Run_Succeeded, invalidations := invalidations e + 1 \<rparr>"

text \<open>
  Modelled from the spec: one transition of the run's state machine
  \<^verbatim>\<open>NotStarted -> Running(i) -> { Running(i+1) | Failed | Succeeded }\<close>. A pending run
  starts; a running one executes its next stage, fails on a \<open>Failed\<close> result, succeeds
  after its last stage and goes on otherwise; a finished run has no transition. The
  repository leaves this loop to the pipeline service. Stage timeouts and external
  cancellation are not part of this model.
\<close>

definition step :: "environment \<Rightarrow> TriggerEvent \<Rightarrow> engine \<Rightarrow> engine option" where
  "step env t e =
     (case overall e of
        Pending \<Rightarrow> Some (e\<lparr> overall := Running \<rparr>)
      | Running \<Rightarrow>
         (case todo e of
            [] \<Rightarrow> Some (finish e)
          | st # rest \<Rightarrow>
             (case execute env t st e of
                (r, e') \<Rightarrow>
                  (let e'' = e'\<lparr> results := results e' @ [r], todo := rest \<rparr>
                   in if status r = Failed then Some (e''\<lparr> overall := Run_Failed \<rparr>)
                      else if rest = [] then Some (finish e'')
                      else Some e'')))
      | Run_Succeeded \<Rightarrow> None
      | Run_Failed \<Rightarrow> None)"

text \<open>
  The number of transitions a run can still make is bounded by the stages not started.
\<close>

definition rank :: "engine \<Rightarrow> nat" where
  "rank e = (case overall e of
               Pending \<Rightarrow> length (todo e) + 2
             | Running \<Rightarrow> length (todo e) + 1
             | Run_Succeeded \<Rightarrow> 0
             | Run_Failed \<Rightarrow> 0)"

lemma execute_frame:
  "execute env t st e = (r, e') \<Longrightarrow>
     todo e' = todo e \<and> overall e' = overall e \<and> results e' = results e
     \<and> runId e' = runId e \<and> invalidations e' = invalidations e"
  by (auto simp: execute_def Let_def split: if_splits sum.splits option.splits prod.splits)

lemma step_rank: "step env t e = Some e' \<Longrightarrow> rank e' < rank e"
  by (auto simp: step_def rank_def finish_def Let_def
      split: run_status.splits list.splits prod.splits if_splits dest!: execute_frame)

text \<open>
  Modelled from the spec: \<^verbatim>\<open>run(trigger) -> PipelineRun\<close>, the state machine driven
  until it has no transition left.
\<close>

function drive :: "environment \<Rightarrow> TriggerEvent \<Rightarrow> engine \<Rightarrow> engine" where
  "drive env t e = (case step env t e of None \<Rightarrow> e | Some e' \<Rightarrow> drive env t e')"
  by pat_completeness auto

termination
  by (relation "measure (\<lambda>(env, t, e). rank e)") (auto simp: step_rank)

declare drive.simps [simp del]

text \<open>
  Modelled from the spec: a run as created when a trigger event is accepted.
\<close>

definition initial :: "Stage list \<Rightarrow> run_id \<Rightarrow> engine" where
  "initial p rid =
     \<lparr> runId = rid, results = [], overall = Pending, todo = p, store = Map.empty,
       clock = 0, invoked = [], invalidations = 0 \<rparr>"

text \<open>
  The states a run passes through from a given state.
\<close>

inductive reachable :: "environment \<Rightarrow> TriggerEvent \<Rightarrow> engine \<Rightarrow> engine \<Rightarrow> bool"
  for env :: environment and t :: TriggerEvent and e0 :: engine where
  start: "reachable env t e0 e0"
| advance: "reachable env t e0 e \<Longrightarrow> step env t e = Some e' \<Longrightarrow> reachable env t e0 e'"

section \<open>The unified pipeline\<close>

text \<open>
  \<^verbatim>\<open>unifiedPipeline.addStage({...})\<close> appends a stage to the pipeline.
\<close>

definition addStage :: "Stage \<Rightarrow> Stage list \<Rightarrow> Stage list" where
  "addStage st p = p @ [st]"

text \<open>
  The four stages in the terms of the data model above. \<^verbatim>\<open>Source\<close> runs the
  \<^verbatim>\<open>GitHub_Source\<close> action and outputs \<^verbatim>\<open>sourceOutput\<close>; \<^verbatim>\<open>DockerBuild\<close> runs
  the Docker build project on \<^verbatim>\<open>sourceOutput\<close> with no output artifact and is the stage
  with the skip predicate; \<^verbatim>\<open>ViteBuild\<close> runs the Vite build project on
  \<^verbatim>\<open>sourceOutput\<close> and outputs \<^verbatim>\<open>ViteBuildOutput\<close>; \<^verbatim>\<open>Deploy\<close> runs the
  \<^verbatim>\<open>S3_Deploy\<close> action on \<^verbatim>\<open>ViteBuildOutput\<close>.
\<close>

definition Source :: Stage where
  "Source = \<lparr> stageName = ''Source'', inputArtifact = None, outputArtifact = Some ''sourceOutput'',
     program = (\<lambda>w. exit_status w ''GitHub_Source''), skip_predicate = None \<rparr>"

definition DockerBuild :: Stage where
  "DockerBuild = \<lparr> stageName = ''DockerBuild'', inputArtifact = Some ''sourceOutput'', outputArtifact = None,
     program = (\<lambda>w. snd (run_buildspec w dockerBuildProject fresh_shell)),
     skip_predicate = Some decide \<rparr>"

definition ViteBuild :: Stage where
  "ViteBuild = \<lparr> stageName = ''ViteBuild'', inputArtifact = Some ''sourceOutput'',
     outputArtifact = Some ''ViteBuildOutput'',
     program = (\<lambda>w. snd (run_buildspec w viteBuildProject fresh_shell)),
     skip_predicate = None \<rparr>"

definition Deploy :: Stage where
  "Deploy = \<lparr> stageName = ''Deploy'', inputArtifact = Some ''ViteBuildOutput'', outputArtifact = None,
     program = (\<lambda>w. exit_status w ''S3_Deploy''), skip_predicate = None \<rparr>"

text \<open>
  The pipeline as the stack builds it: four \<^verbatim>\<open>addStage\<close> calls in this order.
\<close>

definition unifiedPipeline :: "Stage list" where
  "unifiedPipeline = addStage Deploy (addStage ViteBuild (addStage DockerBuild (addStage Source [])))"

definition run :: "environment \<Rightarrow> TriggerEvent \<Rightarrow> run_id \<Rightarrow> engine" where
  "run env t rid = drive env t (initial unifiedPipeline rid)"

section \<open>Properties of a run\<close>

text \<open>
  A result is consistent when a skipped stage has no exit code, a succeeded one has exit
  code 0 and a non-zero exit code belongs to a failed one.
\<close>

definition consistent :: "StageResult \<Rightarrow> bool" where
  "consistent r =
     (case exitCode r of
        None \<Rightarrow> status r \<noteq> Succeeded
      | Some c \<Rightarrow> status r \<noteq> Skipped \<and> (c = 0 \<or> status r = Failed))"

text \<open>
  The start and end times of the results, in the order recorded.
\<close>

definition timeline :: "StageResult list \<Rightarrow> nat list" where
  "timeline rs = concat (map (\<lambda>r. [startTime r, endTime r]) rs)"

text \<open>
  What holds in every state of a run of pipeline \<open>p\<close>.
\<close>

definition run_inv :: "Stage list \<Rightarrow> engine \<Rightarrow> bool" where
  "run_inv p e =
     (map stage (results e) @ map stageName (todo e) = map stageName p
      \<and> (overall e = Run_Failed) = (\<exists>r \<in> set (results e). status r = Failed)
      \<and> (\<forall>r \<in> set (butlast (results e)). status r \<noteq> Failed)
      \<and> (overall e = Run_Succeeded \<longrightarrow> todo e = [])
      \<and> (overall e = Pending \<longrightarrow> results e = [])
      \<and> invalidations e = (if overall e = Run_Succeeded then 1 else 0)
      \<and> sorted (timeline (results e) @ [clock e])
      \<and> invoked e = map stage (filter (\<lambda>r. exitCode r \<noteq> None) (results e))
      \<and> list_all consistent (results e))"

section \<open>Example runs\<close>

text \<open>
  A trigger whose current and preceding revision agree on the watched paths, an
  environment in which every program succeeds, and one in which the bundler build fails.
\<close>

definition release_event :: TriggerEvent where
  "release_event = \<lparr> revision = ''r2'', ref = ''refs/heads/main'', delivery = Webhook,
     revisions = [[''package.json'' \<mapsto> ''v1''], [''package.json'' \<mapsto> ''v1'']] \<rparr>"

definition all_succeed :: environment where
  "all_succeed = \<lparr> programs = (\<lambda>prog. 0), elapsed = (\<lambda>_. 5), produced = (\<lambda>_. ''bytes'') \<rparr>"


section \<open>Change detection\<close>

lemma skip_check_exit: "snd (skip_check h s) = 0"
  by (simp add: skip_check_def Let_def)

lemma skip_check_localstack_exit: "snd (skip_check_localstack h s) = 0"
  by (simp add: skip_check_localstack_def Let_def)

lemma skip_check_flag:
  "skip_requested (fst (skip_check h s)) =
     (1 < length h \<and> (h ! 0) ''package.json'' = (h ! 1) ''package.json''
        \<and> (h ! 0) ''pnpm-lock.yaml'' = (h ! 1) ''pnpm-lock.yaml'')"
  by (simp add: skip_check_def Let_def git_rev_parse_verify_def git_diff_quiet_def
      skip_requested_def export_SKIP_DOCKER_BUILD_def spawn_def)

lemma skip_check_localstack_flag:
  "skip_requested (fst (skip_check_localstack h s)) =
     (1 < length h \<and> (h ! 0) ''package.json'' = (h ! 1) ''package.json'')"
  by (simp add: skip_check_localstack_def Let_def git_diff_quiet_def
      skip_requested_def export_SKIP_DOCKER_BUILD_def spawn_def)

text \<open>
  C1. When a prior revision exists, the skip flag is set exactly when no watched path
  differs between the current revision and the immediately preceding one
  (\<^verbatim>\<open>package.json\<close> and \<^verbatim>\<open>pnpm-lock.yaml\<close>; only \<^verbatim>\<open>package.json\<close> in the
  LocalStack-aware stack). The older revisions are arbitrary, so a change to a watched path
  made before the preceding revision has no influence.
\<close>

theorem decide_single_commit_diff:
  "decide (cur # prev # older) =
     (\<forall>p \<in> set [''package.json'', ''pnpm-lock.yaml'']. cur p = prev p)
   \<and> decide_localstack (cur # prev # older) = (\<forall>p \<in> set [''package.json'']. cur p = prev p)"
  by (simp add: decide_def decide_localstack_def skip_check_flag skip_check_localstack_flag)

theorem decide_single_commit_diff_witness:
  "decide [[''package.json'' \<mapsto> ''v2''], [''package.json'' \<mapsto> ''v2''],
           [''package.json'' \<mapsto> ''v1'']] = True
   \<and> decide_localstack [[''package.json'' \<mapsto> ''v2''], [''package.json'' \<mapsto> ''v2''],
           [''package.json'' \<mapsto> ''v1'']] = True
   \<and> decide [[''package.json'' \<mapsto> ''v2'', ''pnpm-lock.yaml'' \<mapsto> ''b''],
           [''package.json'' \<mapsto> ''v2'', ''pnpm-lock.yaml'' \<mapsto> ''a'']] = False"
  using decide_single_commit_diff [of "[''package.json'' \<mapsto> ''v2'']"
      "[''package.json'' \<mapsto> ''v2'']" "[[''package.json'' \<mapsto> ''v1'']]"]
    decide_single_commit_diff [of "[''package.json'' \<mapsto> ''v2'', ''pnpm-lock.yaml'' \<mapsto> ''b'']"
      "[''package.json'' \<mapsto> ''v2'', ''pnpm-lock.yaml'' \<mapsto> ''a'']" "[]"]
  by simp

text \<open>
  C2. With no prior revision (no history at all, or a single revision) the skip flag is
  not set, whatever the current revision holds, and the change check itself exits with
  status 0: the missing history does not fail the phase.
\<close>

theorem decide_no_prior_revision:
  assumes "length h < 2"
  shows "\<not> decide h \<and> snd (skip_check h s) = 0
       \<and> \<not> decide_localstack h \<and> snd (skip_check_localstack h s) = 0"
  using assms
  by (simp add: decide_def decide_localstack_def skip_check_flag skip_check_localstack_flag
      skip_check_exit skip_check_localstack_exit)

theorem decide_no_prior_revision_witness:
  "length [[''package.json'' \<mapsto> ''v1'']] < 2
   \<and> decide [[''package.json'' \<mapsto> ''v1'']] = False
   \<and> snd (skip_check [[''package.json'' \<mapsto> ''v1'']] fresh_shell) = 0
   \<and> decide_localstack [[''package.json'' \<mapsto> ''v1'']] = False
   \<and> snd (skip_check_localstack [[''package.json'' \<mapsto> ''v1'']] fresh_shell) = 0"
  using decide_no_prior_revision [of "[[''package.json'' \<mapsto> ''v1'']]" fresh_shell]
  by simp

section \<open>Trigger selection\<close>



section \<open>The Docker build stage under a true skip flag\<close>

lemma dockerBuildProject_skipped:
  assumes "decide (checkout w)"
  shows "run_buildspec w dockerBuildProject fresh_shell =
     (\<lparr> SKIP_DOCKER_BUILD = Some ''true'',
        spawned = [''git rev-parse'', ''git diff'', ''aws ecr get-login-password'',
                   ''docker login'']
                  @ (if exit_status w ''docker login'' = 0 then [''docker pull''] else []) \<rparr>,
      exit_status w ''docker login'')"
proof -
  from assms have h: "1 < length (checkout w)"
      "(checkout w ! 0) ''package.json'' = (checkout w ! 1) ''package.json''"
      "(checkout w ! 0) ''pnpm-lock.yaml'' = (checkout w ! 1) ''pnpm-lock.yaml''"
    by (simp_all add: decide_def skip_check_flag)
  then have sc: "skip_check (checkout w) fresh_shell =
      (\<lparr> SKIP_DOCKER_BUILD = Some ''true'', spawned = [''git rev-parse'', ''git diff''] \<rparr>, 0)"
    by (simp add: skip_check_def Let_def git_rev_parse_verify_def git_diff_quiet_def
        export_SKIP_DOCKER_BUILD_def spawn_def fresh_shell_def)
  show ?thesis
    by (simp add: run_buildspec_def dockerBuildProject_def sc echo_def ecr_login_def
        docker_pull_or_true_def docker_build_unless_skipped_def docker_push_unless_skipped_def
        skip_requested_def spawn_def)
qed

text \<open>
  C7 as stated fails on the Docker build project: with two revisions that agree on the
  watched paths the skip flag is true, and the stage still starts git, the registry login
  and the image pull, and ends with an exit status of its own.
\<close>

theorem skipped_stage_spawns_processes:
  "decide [[''package.json'' \<mapsto> ''v1''], [''package.json'' \<mapsto> ''v1'']]
   \<and> spawned (fst (run_buildspec
        \<lparr> checkout = [[''package.json'' \<mapsto> ''v1''], [''package.json'' \<mapsto> ''v1'']],
          exit_status = (\<lambda>prog. 0) \<rparr> dockerBuildProject fresh_shell))
      = [''git rev-parse'', ''git diff'', ''aws ecr get-login-password'', ''docker login'',
         ''docker pull'']
   \<and> snd (run_buildspec
        \<lparr> checkout = [[''package.json'' \<mapsto> ''v1''], [''package.json'' \<mapsto> ''v1'']],
          exit_status = (\<lambda>prog. 0) \<rparr> dockerBuildProject fresh_shell) = 0"
proof -
  have d: "decide [[''package.json'' \<mapsto> ''v1''], [''package.json'' \<mapsto> ''v1'']]"
    by (simp add: decide_def skip_check_flag)
  then show ?thesis
    by (simp add: dockerBuildProject_skipped)
qed

text \<open>
  C7, amended. When the skip flag of a run is true, the Docker build stage starts neither
  \<^verbatim>\<open>docker build\<close> nor \<^verbatim>\<open>docker tag\<close> nor \<^verbatim>\<open>docker push\<close>, whatever the other
  programs return: it starts exactly the change check, the registry login and (after a
  successful login) the image pull, and its exit status is that of the login.
\<close>

theorem skip_guards_build_and_push:
  assumes "decide (checkout w)"
  shows "set (spawned (fst (run_buildspec w dockerBuildProject fresh_shell)))
           \<inter> {''docker build'', ''docker tag'', ''docker push''} = {}
       \<and> spawned (fst (run_buildspec w dockerBuildProject fresh_shell)) =
           [''git rev-parse'', ''git diff'', ''aws ecr get-login-password'', ''docker login'']
           @ (if exit_status w ''docker login'' = 0 then [''docker pull''] else [])
       \<and> snd (run_buildspec w dockerBuildProject fresh_shell) = exit_status w ''docker login''"
  by (simp add: dockerBuildProject_skipped [OF assms])

theorem skip_guards_build_and_push_witness:
  "decide (checkout \<lparr> checkout = [[''package.json'' \<mapsto> ''v1''], [''package.json'' \<mapsto> ''v1'']],
          exit_status = (\<lambda>prog. 0) \<rparr>)
   \<and> set (spawned (fst (run_buildspec
        \<lparr> checkout = [[''package.json'' \<mapsto> ''v1''], [''package.json'' \<mapsto> ''v1'']],
          exit_status = (\<lambda>prog. 0) \<rparr> dockerBuildProject fresh_shell)))
           \<inter> {''docker build'', ''docker tag'', ''docker push''} = {}"
proof -
  have d: "decide (checkout \<lparr> checkout = [[''package.json'' \<mapsto> ''v1''],
      [''package.json'' \<mapsto> ''v1'']], exit_status = (\<lambda>prog. 0) \<rparr>)"
    by (simp add: decide_def skip_check_flag)
  from skip_guards_build_and_push [OF d] d show ?thesis
    by blast
qed

section \<open>The artifact store contract\<close>

lemma dom_put: "dom (snd (put rid n producer bytes now st)) = insert (rid, n) (dom st)"
  by (auto simp: put_def split: option.splits)

lemma dom_put_all: "dom (put_all ops st) = dom st \<union> set (map (\<lambda>(rid, n, _). (rid, n)) ops)"
  by (induction ops st rule: put_all.induct) (auto simp: dom_put)

lemma put_written: "(rid, n) \<in> dom st \<Longrightarrow> put rid n producer bytes now st = (Some DuplicateArtifact, st)"
  by (auto simp: put_def)

lemma get_unwritten: "(rid, n) \<notin> dom st \<Longrightarrow> get rid n st = Inl NotFound"
  by (auto simp: get_def split: option.splits)

text \<open>
  C8. Within a run, a put under a name already written fails with \<open>DuplicateArtifact\<close>
  and returns the store unchanged; a get of a name never written in the run fails with
  \<open>NotFound\<close>; artifacts written in run A are invisible to a get scoped to another run B,
  and a put in run A changes nothing a get scoped to run B sees.
\<close>

theorem artifact_store_contract:
  "((rid, n) \<in> set (map (\<lambda>(rid, n, _). (rid, n)) ops) \<longrightarrow>
      put rid n producer bytes now (put_all ops Map.empty)
        = (Some DuplicateArtifact, put_all ops Map.empty))
   \<and> ((rid, n) \<notin> set (map (\<lambda>(rid, n, _). (rid, n)) ops) \<longrightarrow>
      get rid n (put_all ops Map.empty) = Inl NotFound)
   \<and> ((\<forall>op \<in> set ops. fst op = runA) \<and> runA \<noteq> runB \<longrightarrow>
      get runB n (put_all ops Map.empty) = Inl NotFound)
   \<and> (runA \<noteq> runB \<longrightarrow> get runB n (snd (put runA m producer bytes now st)) = get runB n st)"
proof (intro conjI impI)
  assume "(rid, n) \<in> set (map (\<lambda>(rid, n, _). (rid, n)) ops)"
  then have "(rid, n) \<in> dom (put_all ops Map.empty)" by (simp add: dom_put_all)
  then show "put rid n producer bytes now (put_all ops Map.empty)
        = (Some DuplicateArtifact, put_all ops Map.empty)" by (rule put_written)
next
  assume "(rid, n) \<notin> set (map (\<lambda>(rid, n, _). (rid, n)) ops)"
  then have "(rid, n) \<notin> dom (put_all ops Map.empty)" by (simp add: dom_put_all)
  then show "get rid n (put_all ops Map.empty) = Inl NotFound" by (rule get_unwritten)
next
  assume a: "(\<forall>op \<in> set ops. fst op = runA) \<and> runA \<noteq> runB"
  then have "(runB, n) \<notin> set (map (\<lambda>(rid, n, _). (rid, n)) ops)" by auto
  then have "(runB, n) \<notin> dom (put_all ops Map.empty)" by (simp add: dom_put_all)
  then show "get runB n (put_all ops Map.empty) = Inl NotFound" by (rule get_unwritten)
next
  assume "runA \<noteq> runB"
  then show "get runB n (snd (put runA m producer bytes now st)) = get runB n st"
    by (simp add: get_def put_def split: option.splits)
qed

theorem artifact_store_contract_witness:
  "put 1 ''ViteBuildOutput'' ''Deploy'' ''other'' 9
       (put_all [(1, ''ViteBuildOutput'', ''ViteBuild'', ''dist'', 3)] Map.empty)
     = (Some DuplicateArtifact, put_all [(1, ''ViteBuildOutput'', ''ViteBuild'', ''dist'', 3)] Map.empty)
   \<and> get 1 ''sourceOutput'' (put_all [(1, ''ViteBuildOutput'', ''ViteBuild'', ''dist'', 3)] Map.empty)
     = Inl NotFound
   \<and> get 2 ''ViteBuildOutput'' (put_all [(1, ''ViteBuildOutput'', ''ViteBuild'', ''dist'', 3)] Map.empty)
     = Inl NotFound
   \<and> get 1 ''ViteBuildOutput'' (put_all [(1, ''ViteBuildOutput'', ''ViteBuild'', ''dist'', 3)] Map.empty)
     = Inr ''dist''"
  using artifact_store_contract [of 1 "''ViteBuildOutput''"
      "[(1, ''ViteBuildOutput'', ''ViteBuild'', ''dist'', 3)]" "''Deploy''" "''other''" 9 1 2]
    artifact_store_contract [of 1 "''sourceOutput''"
      "[(1, ''ViteBuildOutput'', ''ViteBuild'', ''dist'', 3)]" "''Deploy''" "''other''" 9 1 2
      "''ViteBuildOutput''"]
  by (simp add: get_def put_def)

section \<open>The invariant of a run\<close>

lemma execute_result:
  "execute env t st e = (r, e') \<Longrightarrow>
     stage r = stageName st \<and> startTime r = clock e \<and> startTime r \<le> endTime r
     \<and> endTime r = clock e'"
  by (auto simp: execute_def Let_def split: if_splits sum.splits option.splits prod.splits)

lemma execute_invoked:
  "execute env t st e = (r, e') \<Longrightarrow>
     invoked e' = invoked e @ (if exitCode r = None then [] else [stageName st])"
  by (auto simp: execute_def Let_def split: if_splits sum.splits option.splits prod.splits)

lemma execute_codes:
  "execute env t st e = (r, e') \<Longrightarrow> consistent r \<and> (status r = Skipped \<longrightarrow> e' = e)"
  by (auto simp: execute_def consistent_def Let_def
      split: if_splits sum.splits option.splits prod.splits)

lemma stepE [consumes 1, case_names Begin Empty Fail Last Next]:
  assumes "step env t e = Some e'"
  obtains
    (Begin) "overall e = Pending" "e' = e\<lparr> overall := Running \<rparr>"
  | (Empty) "overall e = Running" "todo e = []" "e' = finish e"
  | (Fail) st rest r e1 where "overall e = Running" "todo e = st # rest"
      "execute env t st e = (r, e1)" "status r = Failed"
      "e' = e1\<lparr> results := results e @ [r], todo := rest, overall := Run_Failed \<rparr>"
  | (Last) st r e1 where "overall e = Running" "todo e = [st]"
      "execute env t st e = (r, e1)" "status r \<noteq> Failed"
      "e' = finish (e1\<lparr> results := results e @ [r], todo := [] \<rparr>)"
  | (Next) st rest r e1 where "overall e = Running" "todo e = st # rest" "rest \<noteq> []"
      "execute env t st e = (r, e1)" "status r \<noteq> Failed"
      "e' = e1\<lparr> results := results e @ [r], todo := rest \<rparr>"
proof (cases "overall e")
  case Pending
  with assms show ?thesis by (auto simp: step_def intro: Begin)
next
  case Running
  show ?thesis
  proof (cases "todo e")
    case Nil
    with Running assms show ?thesis by (auto simp: step_def intro: Empty)
  next
    case (Cons st rest)
    obtain r e1 where ex: "execute env t st e = (r, e1)" by (cases "execute env t st e")
    from execute_frame [OF ex] have fr: "results e1 = results e" by simp
    show ?thesis
    proof (cases "status r = Failed")
      case True
      with Running Cons ex fr assms show ?thesis
        by (auto simp: step_def Let_def intro: Fail)
    next
      case False
      show ?thesis
      proof (cases "rest = []")
        case True
        with False Running Cons ex fr assms show ?thesis
          by (auto simp: step_def Let_def intro: Last)
      next
        case nonempty: False
        with False Running Cons ex fr assms show ?thesis
          by (auto simp: step_def Let_def intro: Next)
      qed
    qed
  qed
next
  case Run_Succeeded
  with assms show ?thesis by (simp add: step_def)
next
  case Run_Failed
  with assms show ?thesis by (simp add: step_def)
qed

lemma run_inv_initial: "run_inv p (initial p rid)"
  by (simp add: run_inv_def initial_def timeline_def)

lemma timeline_snoc: "timeline (rs @ [r]) = timeline rs @ [startTime r, endTime r]"
  by (simp add: timeline_def)

lemma sorted_extend:
  "sorted (xs @ [a]) \<Longrightarrow> a \<le> b \<Longrightarrow> sorted ((xs @ [a, b]) @ [b])"
  by (auto simp: sorted_append)

lemma run_inv_record:
  assumes inv: "run_inv p e" and ru: "overall e = Running" and td: "todo e = st # rest"
    and ex: "execute env t st e = (r, e1)"
  shows "map stage (results e @ [r]) @ map stageName rest = map stageName p"
    and "\<forall>x \<in> set (results e). status x \<noteq> Failed"
    and "sorted (timeline (results e @ [r]) @ [clock e1])"
    and "invoked e1 = map stage (filter (\<lambda>r. exitCode r \<noteq> None) (results e @ [r]))"
    and "list_all consistent (results e @ [r])"
    and "invalidations e1 = 0"
proof -
  note fr = execute_frame [OF ex] and re = execute_result [OF ex]
    and iv = execute_invoked [OF ex] and co = execute_codes [OF ex]
  from inv td re show "map stage (results e @ [r]) @ map stageName rest = map stageName p"
    by (simp add: run_inv_def)
  from inv ru show "\<forall>x \<in> set (results e). status x \<noteq> Failed"
    by (simp add: run_inv_def)
  from inv have "sorted (timeline (results e) @ [clock e])"
    by (simp add: run_inv_def)
  moreover from re have "clock e \<le> clock e1" by simp
  ultimately have "sorted ((timeline (results e) @ [clock e, clock e1]) @ [clock e1])"
    by (rule sorted_extend)
  with re show "sorted (timeline (results e @ [r]) @ [clock e1])"
    by (simp add: timeline_snoc)
  from inv iv show "invoked e1 = map stage (filter (\<lambda>r. exitCode r \<noteq> None) (results e @ [r]))"
    by (simp add: run_inv_def re)
  from inv co show "list_all consistent (results e @ [r])"
    by (simp add: run_inv_def)
  from inv ru fr show "invalidations e1 = 0"
    by (simp add: run_inv_def)
qed

lemma run_inv_step:
  assumes inv: "run_inv p e" and st: "step env t e = Some e'"
  shows "run_inv p e'"
  using st
proof (cases rule: stepE)
  case Begin
  with inv show ?thesis by (auto simp: run_inv_def)
next
  case Empty
  with inv show ?thesis by (simp add: run_inv_def finish_def)
next
  case (Fail st rest r e1)
  note rec = run_inv_record [OF inv Fail(1) Fail(2) Fail(3)]
  show ?thesis
    unfolding run_inv_def
  proof (intro conjI)
    show "(overall e' = Run_Failed) = (\<exists>r \<in> set (results e'). status r = Failed)"
      using Fail(4,5) by simp
    show "list_all consistent (results e')"
      using rec(5) Fail(5) by simp
  qed (use rec(1,2,3,4,6) Fail(5) in simp_all)
next
  case (Last st r e1)
  note rec = run_inv_record [OF inv Last(1) Last(2) Last(3)]
  show ?thesis
    unfolding run_inv_def
  proof (intro conjI)
    show "(overall e' = Run_Failed) = (\<exists>r \<in> set (results e'). status r = Failed)"
      using Last(4,5) rec(2) by (simp add: finish_def)
    show "list_all consistent (results e')"
      using rec(5) Last(5) by (simp add: finish_def)
  qed (use rec(1,2,3,4,6) Last(5) in \<open>simp_all add: finish_def\<close>)
next
  case (Next st rest r e1)
  note rec = run_inv_record [OF inv Next(1) Next(2) Next(4)]
  have ov: "overall e1 = Running"
    using execute_frame [OF Next(4)] Next(1) by simp
  show ?thesis
    unfolding run_inv_def
  proof (intro conjI)
    show "(overall e' = Run_Failed) = (\<exists>r \<in> set (results e'). status r = Failed)"
      using Next(5,6) rec(2) ov by simp
    show "list_all consistent (results e')"
      using rec(5) Next(6) by simp
  qed (use rec(1,2,3,4,6) Next(3,6) ov in simp_all)
qed

lemma reachable_inv:
  "reachable env t (initial p rid) e \<Longrightarrow> run_inv p e"
  by (induction rule: reachable.induct) (auto intro: run_inv_initial run_inv_step)

lemma drive_reachable: "reachable env t e0 e \<Longrightarrow> reachable env t e0 (drive env t e)"
proof (induction env t e rule: drive.induct)
  case (1 env t e)
  show ?case
  proof (cases "step env t e")
    case None
    with 1 show ?thesis by (simp add: drive.simps [of env t e])
  next
    case (Some e')
    with 1 show ?thesis by (simp add: drive.simps [of env t e] reachable.advance)
  qed
qed



lemma sorted_timeline_adjacent:
  "sorted (timeline rs) \<Longrightarrow> Suc i < length rs \<Longrightarrow> endTime (rs ! i) \<le> startTime (rs ! Suc i)"
proof (induction rs arbitrary: i)
  case Nil
  then show ?case by simp
next
  case (Cons r rs)
  show ?case
  proof (cases i)
    case 0
    with Cons.prems obtain r' rs' where "rs = r' # rs'" by (cases rs) auto
    with Cons.prems 0 show ?thesis by (simp add: timeline_def)
  next
    case (Suc j)
    with Cons show ?thesis by (simp add: timeline_def)
  qed
qed

lemma sorted_timeline_interval:
  "sorted (timeline rs) \<Longrightarrow> i < length rs \<Longrightarrow> startTime (rs ! i) \<le> endTime (rs ! i)"
proof (induction rs arbitrary: i)
  case Nil
  then show ?case by simp
next
  case (Cons r rs)
  then show ?case by (cases i) (simp_all add: timeline_def)
qed

lemma not_Failed: "(s = Succeeded \<or> s = Skipped) = (s \<noteq> Failed)"
  by (cases s) simp_all

lemma declared_order:
  "map stageName unifiedPipeline = [''Source'', ''DockerBuild'', ''ViteBuild'', ''Deploy'']"
  by (simp add: unifiedPipeline_def addStage_def Source_def DockerBuild_def ViteBuild_def Deploy_def)

lemma run_reachable: "reachable env t (initial unifiedPipeline rid) (run env t rid)"
  unfolding run_def by (rule drive_reachable) (rule reachable.start)




section \<open>The example runs, evaluated\<close>

lemmas run_eval = run_def drive.simps step_def execute_def initial_def unifiedPipeline_def
  addStage_def Source_def DockerBuild_def ViteBuild_def Deploy_def skip_holds_def
  resolve_input_def get_def put_def finish_def Let_def decide_def skip_check_flag
  run_buildspec_def viteBuildProject_def echo_def external_def spawn_def

lemma scenario_success:
  "map status (results (run all_succeed release_event 7)) = [Succeeded, Skipped, Succeeded, Succeeded]"
  "map stage (results (run all_succeed release_event 7)) = [''Source'', ''DockerBuild'', ''ViteBuild'', ''Deploy'']"
  "map startTime (results (run all_succeed release_event 7)) = [0, 5, 5, 10]"
  "map endTime (results (run all_succeed release_event 7)) = [5, 5, 10, 15]"
  "overall (run all_succeed release_event 7) = Run_Succeeded"
  "todo (run all_succeed release_event 7) = []"
  by (simp_all add: run_eval all_succeed_def release_event_def)


section \<open>Failure, order and success of a run\<close>






text \<open>
  C5. In every state of a run of the unified pipeline the results, followed by the
  stages not started, are Source, DockerBuild, ViteBuild, Deploy in this order; every
  result before the last is \<open>Succeeded\<close> or \<open>Skipped\<close>; each stage starts no earlier
  than the previous one ended and ends no earlier than it started.
\<close>

theorem stages_in_declared_order:
  assumes "reachable env t (initial unifiedPipeline rid) e"
  shows "map stage (results e) @ map stageName (todo e)
           = [''Source'', ''DockerBuild'', ''ViteBuild'', ''Deploy'']
       \<and> (\<forall>x \<in> set (butlast (results e)). status x = Succeeded \<or> status x = Skipped)
       \<and> (\<forall>i. Suc i < length (results e) \<longrightarrow>
            endTime (results e ! i) \<le> startTime (results e ! Suc i))
       \<and> (\<forall>i < length (results e). startTime (results e ! i) \<le> endTime (results e ! i))"
proof -
  from assms have inv: "run_inv unifiedPipeline e" by (rule reachable_inv)
  then have a: "map stage (results e) @ map stageName (todo e)
           = [''Source'', ''DockerBuild'', ''ViteBuild'', ''Deploy'']"
    by (simp add: run_inv_def declared_order)
  from inv have "\<forall>x \<in> set (butlast (results e)). status x \<noteq> Failed"
    by (simp add: run_inv_def)
  then have b: "\<forall>x \<in> set (butlast (results e)). status x = Succeeded \<or> status x = Skipped"
    by (simp add: not_Failed)
  from inv have "sorted (timeline (results e) @ [clock e])" by (simp add: run_inv_def)
  then have so: "sorted (timeline (results e))" by (simp add: sorted_append)
  from so have c: "\<forall>i. Suc i < length (results e) \<longrightarrow>
            endTime (results e ! i) \<le> startTime (results e ! Suc i)"
    by (simp add: sorted_timeline_adjacent)
  from so have d: "\<forall>i < length (results e). startTime (results e ! i) \<le> endTime (results e ! i)"
    by (simp add: sorted_timeline_interval)
  from a b c d show ?thesis by (intro conjI)
qed

theorem stages_in_declared_order_witness:
  "map stage (results (run all_succeed release_event 7)) @ map stageName (todo (run all_succeed release_event 7))
     = [''Source'', ''DockerBuild'', ''ViteBuild'', ''Deploy'']
   \<and> map startTime (results (run all_succeed release_event 7)) = [0, 5, 5, 10]
   \<and> map endTime (results (run all_succeed release_event 7)) = [5, 5, 10, 15]
   \<and> endTime (results (run all_succeed release_event 7) ! 2) \<le> startTime (results (run all_succeed release_event 7) ! Suc 2)"
proof -
  have "length (map status (results (run all_succeed release_event 7))) = 4"
    unfolding scenario_success(1) by simp
  then have len: "Suc 2 < length (results (run all_succeed release_event 7))" by simp
  note th = stages_in_declared_order [OF run_reachable, of all_succeed release_event 7]
  from th have ord: "map stage (results (run all_succeed release_event 7)) @ map stageName (todo (run all_succeed release_event 7))
     = [''Source'', ''DockerBuild'', ''ViteBuild'', ''Deploy'']"
    by (rule conjunct1)
  have "\<forall>i. Suc i < length (results (run all_succeed release_event 7)) \<longrightarrow>
      endTime (results (run all_succeed release_event 7) ! i) \<le> startTime (results (run all_succeed release_event 7) ! Suc i)"
    by (rule th [THEN conjunct2, THEN conjunct2, THEN conjunct1])
  with len have adj: "endTime (results (run all_succeed release_event 7) ! 2)
      \<le> startTime (results (run all_succeed release_event 7) ! Suc 2)"
    by blast
  from ord adj scenario_success(3,4) show ?thesis by (intro conjI)
qed



end
